theory Spec2Isabelle
  imports Complex_Main
begin

section \<open>The measurement pipeline of MeasurementCamera.tsx\<close>

text \<open>
  The component \<^verbatim>\<open>MeasurementCamera\<close> samples a webcam every 100 ms, asks a pose
  detector for the poses in the current frame and turns the first pose into two body
  measurements. This theory embeds the two functions that carry the logic,
  \<^verbatim>\<open>calculateMeasurements\<close> (lines 33-62) and \<^verbatim>\<open>detect\<close> (lines 64-75), and the
  timer that drives them (lines 77-83).

  A JavaScript \<^verbatim>\<open>number\<close> is modelled twice. Which poses give a measurement, what
  \<^verbatim>\<open>detect\<close> publishes and how the timer interleaves do not depend on the arithmetic:
  these properties are proved on \<open>calculateMeasurements\<close>, where a number is a
  \<^typ>\<open>real\<close> and the arithmetic is exact. The values that the arithmetic produces
  are proved on \<open>calculateMeasurements64\<close>, the same function on IEEE-754 double
  precision numbers: every operation rounds to the nearest double, and NaN, the two
  infinities and the negative zero are values.
\<close>

subsection \<open>Data\<close>

text \<open>
  \<^verbatim>\<open>Keypoint\<close> and \<^verbatim>\<open>Pose\<close> are declared by the pose-detection library:
  \<^verbatim>\<open>{x: number; y: number; z?: number; score?: number; name?: string}\<close> and
  \<^verbatim>\<open>{keypoints: Keypoint[]; score?: number; ...}\<close>. An optional field is an
  \<^typ>\<open>'a option\<close>. The score of a pose is called \<open>pose_score\<close> here, since a record
  field name is global.
\<close>

record Keypoint =
  x :: real
  y :: real
  z :: "real option"
  score :: "real option"
  name :: "string option"

record Pose =
  keypoints :: "Keypoint list"
  pose_score :: "real option"

text \<open>Lines 10-13: \<^verbatim>\<open>interface Measurements { height: number; shoulderWidth: number }\<close>.\<close>

record Measurements =
  height :: real
  shoulderWidth :: real

text \<open>Lines 7-8. The two constants are only passed to the \<^verbatim>\<open>Webcam\<close> element.\<close>

definition CAMERA_WIDTH :: real where
  "CAMERA_WIDTH = 640"

definition CAMERA_HEIGHT :: real where
  "CAMERA_HEIGHT = 480"

subsection \<open>The numeric primitives of the source\<close>

text \<open>
  \<^verbatim>\<open>Math.round\<close> returns the integer nearest to its argument, a tie going to the
  larger one; \<^verbatim>\<open>Math.pow(b, 2)\<close> is the square; \<^verbatim>\<open>Math.sqrt\<close> is applied to a sum of
  two squares only.
\<close>

definition Math_round :: "real \<Rightarrow> real" where
  "Math_round v = of_int \<lfloor>v + 1 / 2\<rfloor>"

definition Math_pow2 :: "real \<Rightarrow> real" where
  "Math_pow2 b = b * b"

definition Math_sqrt :: "real \<Rightarrow> real" where
  "Math_sqrt v = sqrt v"

definition Math_abs :: "real \<Rightarrow> real" where
  "Math_abs v = \<bar>v\<bar>"

text \<open>Line 57.\<close>

definition PIXEL_TO_CM_RATIO :: real where
  "PIXEL_TO_CM_RATIO = 264583 / 1000000"

subsection \<open>calculateMeasurements\<close>

text \<open>
  Lines 40-43: \<^verbatim>\<open>keypoints.find(kp => kp.name === n)\<close> is the first keypoint of the
  array whose name is \<open>n\<close>, or \<^verbatim>\<open>undefined\<close>; that is \<^const>\<open>List.find\<close>.
\<close>

definition find_keypoint :: "string \<Rightarrow> Keypoint list \<Rightarrow> Keypoint option" where
  "find_keypoint n kps = List.find (\<lambda>kp. name kp = Some n) kps"

text \<open>
  Lines 33-62. \<^verbatim>\<open>null\<close> is \<^const>\<open>None\<close>. A keypoint object is truthy, so the test of
  line 45 fails exactly when one of the four searches found nothing.
\<close>

definition calculateMeasurements :: "Pose list \<Rightarrow> Measurements option" where
  "calculateMeasurements poses =
     (case poses of
        [] \<Rightarrow> None
      | pose # _ \<Rightarrow>
          (let kps = keypoints pose in
           case find_keypoint ''left_shoulder'' kps of
             None \<Rightarrow> None
           | Some leftShoulder \<Rightarrow>
           (case find_keypoint ''right_shoulder'' kps of
             None \<Rightarrow> None
           | Some rightShoulder \<Rightarrow>
           (case find_keypoint ''left_ankle'' kps of
             None \<Rightarrow> None
           | Some leftAnkle \<Rightarrow>
           (case find_keypoint ''nose'' kps of
             None \<Rightarrow> None
           | Some nose \<Rightarrow>
               (let shoulderWidth_px =
                      Math_sqrt (Math_pow2 (x rightShoulder - x leftShoulder) +
                                 Math_pow2 (y rightShoulder - y leftShoulder));
                    height_px = Math_abs (y nose - y leftAnkle)
                in Some \<lparr>height = Math_round (height_px * PIXEL_TO_CM_RATIO),
                         shoulderWidth = Math_round (shoulderWidth_px * PIXEL_TO_CM_RATIO)\<rparr>))))))"

subsection \<open>The component and detect\<close>

text \<open>
  Lines 16-18: the component holds the detector (\<^verbatim>\<open>null\<close> until line 27 stores it),
  the reference to the webcam element, whose \<^verbatim>\<open>video\<close> may be \<^verbatim>\<open>null\<close>, and the
  published measurements (initially \<^verbatim>\<open>null\<close>). The detector and the video element
  are opaque handles.
\<close>

datatype PoseDetector = PoseDetector

datatype HTMLVideoElement = HTMLVideoElement

datatype Webcam = Webcam (video: "HTMLVideoElement option")

record Component =
  detector :: "PoseDetector option"
  webcamRef_current :: "Webcam option"
  measurements :: "Measurements option"

definition initial :: Component where
  "initial = \<lparr>detector = None, webcamRef_current = None, measurements = None\<rparr>"

text \<open>
  Lines 64-75. \<^verbatim>\<open>detect\<close> is asynchronous: lines 65-70 run when it is called and
  start \<^verbatim>\<open>detector.estimatePoses(video)\<close> unless a guard returns first; lines 71-74
  run when that call has resolved. \<open>detect_starts\<close> tells whether the call is started,
  \<open>detect_resume\<close> is the continuation, given the poses the detector resolved to, and
  \<open>detect\<close> is one whole cycle, nothing else happening in between.
\<close>

definition detect_starts :: "Component \<Rightarrow> bool" where
  "detect_starts st =
     (if detector st = None \<or> webcamRef_current st = None then False
      else case webcamRef_current st of
             None \<Rightarrow> False
           | Some w \<Rightarrow> (case video w of None \<Rightarrow> False | Some v \<Rightarrow> True))"

definition detect_resume :: "Pose list \<Rightarrow> Component \<Rightarrow> Component" where
  "detect_resume poses st =
     (case calculateMeasurements poses of
        Some m \<Rightarrow> st\<lparr>measurements := Some m\<rparr>
      | None \<Rightarrow> st)"

definition detect :: "Pose list \<Rightarrow> Component \<Rightarrow> Component" where
  "detect poses st = (if detect_starts st then detect_resume poses st else st)"

subsection \<open>The timer and the outstanding detections\<close>

text \<open>
  Lines 77-83: \<^verbatim>\<open>setInterval\<close> calls \<^verbatim>\<open>detect\<close> every 100 ms and does not wait for
  the call before. JavaScript runs one callback at a time, so a run of the component
  is a sequence of events, each handled to its end: line 27 stores the detector, the
  webcam reference is attached or detached, the timer ticks (lines 65-70 of one call of
  \<^verbatim>\<open>detect\<close>), a started \<^verbatim>\<open>estimatePoses\<close> resolves to some poses (lines 71-74 of
  that call) or is rejected (the call ends there). \<open>outstanding\<close> counts the calls of
  \<^verbatim>\<open>estimatePoses\<close> that were started and have not completed.
\<close>

datatype event =
    DetectorCreated
  | WebcamRef "Webcam option"
  | Tick
  | Resolved "Pose list"
  | Rejected

record Pipeline =
  component :: Component
  outstanding :: nat

definition start :: Pipeline where
  "start = \<lparr>component = initial, outstanding = 0\<rparr>"

definition step :: "event \<Rightarrow> Pipeline \<Rightarrow> Pipeline" where
  "step ev p =
     (case ev of
        DetectorCreated \<Rightarrow> p\<lparr>component := (component p)\<lparr>detector := Some PoseDetector\<rparr>\<rparr>
      | WebcamRef w \<Rightarrow> p\<lparr>component := (component p)\<lparr>webcamRef_current := w\<rparr>\<rparr>
      | Tick \<Rightarrow>
          if detect_starts (component p) then p\<lparr>outstanding := outstanding p + 1\<rparr> else p
      | Resolved poses \<Rightarrow>
          if outstanding p = 0 then p
          else p\<lparr>component := detect_resume poses (component p),
                 outstanding := outstanding p - 1\<rparr>
      | Rejected \<Rightarrow>
          if outstanding p = 0 then p else p\<lparr>outstanding := outstanding p - 1\<rparr>)"

definition run :: "event list \<Rightarrow> Pipeline \<Rightarrow> Pipeline" where
  "run evs p = fold step evs p"

definition published :: "Pipeline \<Rightarrow> Measurements option" where
  "published p = measurements (component p)"

subsection \<open>Vocabulary of the properties\<close>

text \<open>A pose has a landmark when one of its keypoints carries that name.\<close>

definition has_landmark :: "Pose \<Rightarrow> string \<Rightarrow> bool" where
  "has_landmark pose n = (\<exists>k \<in> set (keypoints pose). name k = Some n)"

definition REQUIRED_LANDMARKS :: "string list" where
  "REQUIRED_LANDMARKS = [''left_shoulder'', ''right_shoulder'', ''left_ankle'', ''nose'']"

definition has_required :: "Pose \<Rightarrow> bool" where
  "has_required pose = (\<forall>n \<in> set REQUIRED_LANDMARKS. has_landmark pose n)"

text \<open>A keypoint as the detector reports it: a position, a score and a name.\<close>

definition keypoint_at :: "string \<Rightarrow> real \<Rightarrow> real \<Rightarrow> real \<Rightarrow> Keypoint" where
  "keypoint_at n px py s = \<lparr>x = px, y = py, z = None, score = Some s, name = Some n\<rparr>"

text \<open>Scenario A of the specification, with the four scores left open.\<close>

definition scenarioA :: "real \<Rightarrow> real \<Rightarrow> real \<Rightarrow> real \<Rightarrow> Pose" where
  "scenarioA s1 s2 s3 s4 =
     \<lparr>keypoints = [keypoint_at ''left_shoulder'' 100 200 s1,
                   keypoint_at ''right_shoulder'' 200 200 s2,
                   keypoint_at ''left_ankle'' 150 600 s3,
                   keypoint_at ''nose'' 150 100 s4],
      pose_score = None\<rparr>"

text \<open>Scenario A without its ankle (scenario C's first pose) and without its nose (scenario B).\<close>

definition no_ankle :: Pose where
  "no_ankle =
     \<lparr>keypoints = [keypoint_at ''left_shoulder'' 100 200 1,
                   keypoint_at ''right_shoulder'' 200 200 1,
                   keypoint_at ''nose'' 150 100 1],
      pose_score = None\<rparr>"

definition no_nose :: Pose where
  "no_nose =
     \<lparr>keypoints = [keypoint_at ''left_shoulder'' 100 200 1,
                   keypoint_at ''right_shoulder'' 200 200 1,
                   keypoint_at ''left_ankle'' 150 600 1],
      pose_score = None\<rparr>"

text \<open>A pose whose coordinates are all negative, and one that lies outside the frame.\<close>

definition negative_pose :: Pose where
  "negative_pose =
     \<lparr>keypoints = [keypoint_at ''left_shoulder'' (- 100) (- 200) 1,
                   keypoint_at ''right_shoulder'' (- 400) (- 600) 1,
                   keypoint_at ''left_ankle'' (- 150) (- 1000) 1,
                   keypoint_at ''nose'' (- 150) (- 100) 1],
      pose_score = None\<rparr>"

text \<open>
  \<open>relocate f pose\<close> keeps the keypoints of \<open>pose\<close> and their names and puts each keypoint
  \<open>k\<close> at the position \<open>f k\<close>.
\<close>

definition relocate :: "(Keypoint \<Rightarrow> real \<times> real) \<Rightarrow> Pose \<Rightarrow> Pose" where
  "relocate f pose =
     pose\<lparr>keypoints := map (\<lambda>k. k\<lparr>x := fst (f k), y := snd (f k)\<rparr>) (keypoints pose)\<rparr>"

definition off_frame :: "Keypoint \<Rightarrow> real \<times> real" where
  "off_frame k = (if name k = Some ''nose'' then (0, - 7) else (CAMERA_WIDTH + 1000, CAMERA_HEIGHT + 2000))"

text \<open>
  Two poses have the same landmarks when, for each required name, the first keypoint
  of that name is missing in both or at the same position in both.
\<close>

definition position :: "Keypoint \<Rightarrow> real \<times> real" where
  "position k = (x k, y k)"

definition same_landmarks :: "Pose \<Rightarrow> Pose \<Rightarrow> bool" where
  "same_landmarks p q =
     (\<forall>n \<in> set REQUIRED_LANDMARKS.
        map_option position (find_keypoint n (keypoints p)) =
        map_option position (find_keypoint n (keypoints q)))"

text \<open>
  Two pose lists are the same except for confidence when they have the same poses, each
  with the same keypoints in the same order, and two matching keypoints differ in their
  score at most.
\<close>

definition keypoint_same_except_score :: "Keypoint \<Rightarrow> Keypoint \<Rightarrow> bool" where
  "keypoint_same_except_score k l = (x k = x l \<and> y k = y l \<and> z k = z l \<and> name k = name l)"

definition pose_same_except_scores :: "Pose \<Rightarrow> Pose \<Rightarrow> bool" where
  "pose_same_except_scores p q =
     (list_all2 keypoint_same_except_score (keypoints p) (keypoints q) \<and>
      pose_score p = pose_score q)"

definition same_except_confidence :: "Pose list \<Rightarrow> Pose list \<Rightarrow> bool" where
  "same_except_confidence ps qs = list_all2 pose_same_except_scores ps qs"

text \<open>The webcam with its video element, and the events that make the component ready.\<close>

definition webcam :: Webcam where
  "webcam = Webcam (Some HTMLVideoElement)"

definition make_ready :: "event list" where
  "make_ready = [WebcamRef (Some webcam), DetectorCreated]"

definition ready :: Component where
  "ready = \<lparr>detector = Some PoseDetector,
            webcamRef_current = Some webcam,
            measurements = None\<rparr>"

section \<open>Double precision\<close>

subsection \<open>Numbers and rounding\<close>

text \<open>
  A Number of JavaScript is an IEEE-754 binary64 value: NaN, an infinity, the negative
  zero, or a finite value. \<open>Fin r\<close> is the finite Number of value \<open>r\<close>, and \<open>Fin 0\<close> is
  the positive zero. The operations below return \<open>Fin r\<close> only for an \<open>r\<close> that a
  double represents.
\<close>

datatype number = NaN | PosInf | NegInf | NegZero | Fin real

text \<open>The nearest integer, a tie going to the even one.\<close>

definition rne :: "real \<Rightarrow> int" where
  "rne v =
     (let f = \<lfloor>v\<rfloor> in
      if v - of_int f < 1 / 2 then f
      else if 1 / 2 < v - of_int f then f + 1
      else if even f then f else f + 1)"

text \<open>
  The exponent of the binade of \<open>r\<close>: the least \<open>e\<close> from -1022 on with
  \<open>\<bar>r\<bar> < 2 powi (e + 1)\<close>, found by counting up, at most 2046 times. The
  subnormal numbers share the exponent -1022 of the smallest normal ones. Neighbouring
  doubles of that binade are \<open>ulp r\<close> apart, and \<open>rd r\<close> is the multiple of \<open>ulp r\<close>
  nearest to \<open>r\<close>, ties to even: the double nearest to \<open>r\<close>, were the exponent
  unbounded above.
\<close>

fun expo_search :: "nat \<Rightarrow> int \<Rightarrow> real \<Rightarrow> int" where
  "expo_search 0 e a = e"
| "expo_search (Suc n) e a = (if a < 2 powi (e + 1) then e else expo_search n (e + 1) a)"

definition expo :: "real \<Rightarrow> int" where
  "expo r = expo_search 2046 (- 1022) \<bar>r\<bar>"

definition ulp :: "real \<Rightarrow> real" where
  "ulp r = 2 powi (expo r - 52)"

definition rd :: "real \<Rightarrow> real" where
  "rd r = of_int (rne (r / ulp r)) * ulp r"

text \<open>
  The Number value for a real number, as the language specification defines it: the
  nearest double, ties to even; an infinity when the rounded magnitude reaches
  \<open>2 ^ 1024\<close>; a zero with the sign of \<open>r\<close> when it rounds to zero.
\<close>

definition fl :: "real \<Rightarrow> number" where
  "fl r =
     (let q = rd r in
      if 2 ^ 1024 \<le> \<bar>q\<bar> then (if 0 < r then PosInf else NegInf)
      else if q = 0 then (if r < 0 then NegZero else Fin 0)
      else Fin q)"

fun is_finite :: "number \<Rightarrow> bool" where
  "is_finite (Fin r) = True"
| "is_finite NegZero = True"
| "is_finite n = False"

fun val :: "number \<Rightarrow> real" where
  "val (Fin r) = r"
| "val n = 0"

fun is_zero :: "number \<Rightarrow> bool" where
  "is_zero (Fin r) = (r = 0)"
| "is_zero NegZero = True"
| "is_zero n = False"

fun is_inf :: "number \<Rightarrow> bool" where
  "is_inf PosInf = True"
| "is_inf NegInf = True"
| "is_inf n = False"

fun sign_bit :: "number \<Rightarrow> bool" where
  "sign_bit (Fin r) = (r < 0)"
| "sign_bit NegZero = True"
| "sign_bit NegInf = True"
| "sign_bit n = False"

subsection \<open>The operators and the Math functions of the source\<close>

text \<open>
  Lines 49, 50 and 54: \<^verbatim>\<open>a - b\<close> is \<^verbatim>\<open>Number::subtract\<close>, the sum of \<open>a\<close> and the negation
  of \<open>b\<close>. Line 49: \<^verbatim>\<open>+\<close> is \<^verbatim>\<open>Number::add\<close>. Lines 59 and 60: \<^verbatim>\<open>*\<close> is
  \<^verbatim>\<open>Number::multiply\<close>, the IEEE-754 product: the sign of the result is the exclusive
  or of the signs of the operands.
\<close>

fun Number_unaryMinus :: "number \<Rightarrow> number" where
  "Number_unaryMinus NaN = NaN"
| "Number_unaryMinus PosInf = NegInf"
| "Number_unaryMinus NegInf = PosInf"
| "Number_unaryMinus NegZero = Fin 0"
| "Number_unaryMinus (Fin r) = (if r = 0 then NegZero else Fin (- r))"

definition Number_add :: "number \<Rightarrow> number \<Rightarrow> number" where
  "Number_add a b =
     (if a = NaN \<or> b = NaN then NaN
      else if a = PosInf \<and> b = NegInf then NaN
      else if a = NegInf \<and> b = PosInf then NaN
      else if is_inf a then a
      else if is_inf b then b
      else if a = NegZero \<and> b = NegZero then NegZero
      else fl (val a + val b))"

definition Number_subtract :: "number \<Rightarrow> number \<Rightarrow> number" where
  "Number_subtract a b = Number_add a (Number_unaryMinus b)"

definition Number_multiply :: "number \<Rightarrow> number \<Rightarrow> number" where
  "Number_multiply a b =
     (if a = NaN \<or> b = NaN then NaN
      else if (is_inf a \<and> is_zero b) \<or> (is_zero a \<and> is_inf b) then NaN
      else if is_inf a \<or> is_inf b then (if sign_bit a \<noteq> sign_bit b then NegInf else PosInf)
      else if is_zero a \<or> is_zero b then (if sign_bit a \<noteq> sign_bit b then NegZero else Fin 0)
      else fl (val a * val b))"



text \<open>
  \<^verbatim>\<open>Math.abs\<close> and \<^verbatim>\<open>Math.round\<close> are exact. \<^verbatim>\<open>Math.round\<close> returns the integer
  nearest to its argument, a tie going to the larger one, and the negative zero for an
  argument from -0.5 up to the negative zero. For a finite base other than zero the
  language leaves the precision of \<^verbatim>\<open>Math.pow\<close> to the implementation, and likewise
  that of \<^verbatim>\<open>Math.sqrt\<close> for a positive finite argument; both are taken here as
  correctly rounded, which is what the square root instruction of the hardware
  computes. \<open>Math_pow64_2 b\<close> is \<^verbatim>\<open>Math.pow(b, 2)\<close>.
\<close>

fun Math_abs64 :: "number \<Rightarrow> number" where
  "Math_abs64 NaN = NaN"
| "Math_abs64 NegZero = Fin 0"
| "Math_abs64 NegInf = PosInf"
| "Math_abs64 PosInf = PosInf"
| "Math_abs64 (Fin r) = Fin \<bar>r\<bar>"

fun Math_pow64_2 :: "number \<Rightarrow> number" where
  "Math_pow64_2 NaN = NaN"
| "Math_pow64_2 PosInf = PosInf"
| "Math_pow64_2 NegInf = PosInf"
| "Math_pow64_2 NegZero = Fin 0"
| "Math_pow64_2 (Fin r) = (if r = 0 then Fin 0 else fl (r * r))"

fun Math_sqrt64 :: "number \<Rightarrow> number" where
  "Math_sqrt64 NaN = NaN"
| "Math_sqrt64 PosInf = PosInf"
| "Math_sqrt64 NegInf = NaN"
| "Math_sqrt64 NegZero = NegZero"
| "Math_sqrt64 (Fin r) = (if r < 0 then NaN else if r = 0 then Fin 0 else fl (sqrt r))"

fun Math_round64 :: "number \<Rightarrow> number" where
  "Math_round64 (Fin r) =
     (let i = \<lfloor>r + 1 / 2\<rfloor> in if i = 0 \<and> r < 0 then NegZero else Fin (of_int i))"
| "Math_round64 n = n"

text \<open>Line 57: the Number value of the literal \<^verbatim>\<open>0.264583\<close>.\<close>

definition PIXEL_TO_CM_RATIO64 :: number where
  "PIXEL_TO_CM_RATIO64 = fl (264583 / 1000000)"

subsection \<open>calculateMeasurements on doubles\<close>

text \<open>The records of the library and of lines 10-13 again, their numbers being doubles.\<close>

record Keypoint64 =
  x64 :: number
  y64 :: number
  z64 :: "number option"
  score64 :: "number option"
  name64 :: "string option"

record Pose64 =
  keypoints64 :: "Keypoint64 list"
  pose_score64 :: "number option"

record Measurements64 =
  height64 :: number
  shoulderWidth64 :: number

definition find_keypoint64 :: "string \<Rightarrow> Keypoint64 list \<Rightarrow> Keypoint64 option" where
  "find_keypoint64 n kps = List.find (\<lambda>kp. name64 kp = Some n) kps"

text \<open>Lines 33-62, operation by operation.\<close>

definition calculateMeasurements64 :: "Pose64 list \<Rightarrow> Measurements64 option" where
  "calculateMeasurements64 poses =
     (case poses of
        [] \<Rightarrow> None
      | pose # _ \<Rightarrow>
          (let kps = keypoints64 pose in
           case find_keypoint64 ''left_shoulder'' kps of
             None \<Rightarrow> None
           | Some leftShoulder \<Rightarrow>
           (case find_keypoint64 ''right_shoulder'' kps of
             None \<Rightarrow> None
           | Some rightShoulder \<Rightarrow>
           (case find_keypoint64 ''left_ankle'' kps of
             None \<Rightarrow> None
           | Some leftAnkle \<Rightarrow>
           (case find_keypoint64 ''nose'' kps of
             None \<Rightarrow> None
           | Some nose \<Rightarrow>
               (let shoulderWidth_px =
                      Math_sqrt64
                        (Number_add
                           (Math_pow64_2 (Number_subtract (x64 rightShoulder) (x64 leftShoulder)))
                           (Math_pow64_2 (Number_subtract (y64 rightShoulder) (y64 leftShoulder))));
                    height_px = Math_abs64 (Number_subtract (y64 nose) (y64 leftAnkle))
                in Some \<lparr>height64 = Math_round64 (Number_multiply height_px PIXEL_TO_CM_RATIO64),
                         shoulderWidth64 =
                           Math_round64 (Number_multiply shoulderWidth_px PIXEL_TO_CM_RATIO64)\<rparr>))))))"

subsection \<open>Vocabulary of the properties on doubles\<close>

text \<open>
  \<open>k\<close> is the landmark \<open>n\<close> of a list of keypoints when it is the first keypoint of the
  list that carries the name \<open>n\<close>.
\<close>

definition first_named :: "string \<Rightarrow> Keypoint64 list \<Rightarrow> Keypoint64 \<Rightarrow> bool" where
  "first_named n kps k =
     (\<exists>i < length kps. kps ! i = k \<and> name64 k = Some n \<and> (\<forall>j < i. name64 (kps ! j) \<noteq> Some n))"



text \<open>
  A coordinate \<open>n\<close> is the finite value \<open>r\<close>, of a magnitude of \<open>2 ^ 500\<close> at most: from such
  coordinates no operation of the source overflows.
\<close>

definition finite_value :: "number \<Rightarrow> real \<Rightarrow> bool" where
  "finite_value n r = (n = Fin r \<and> \<bar>r\<bar> \<le> 2 ^ 500)"


definition keypoint64_at :: "string \<Rightarrow> number \<Rightarrow> number \<Rightarrow> Keypoint64" where
  "keypoint64_at n px py = \<lparr>x64 = px, y64 = py, z64 = None, score64 = None, name64 = Some n\<rparr>"

text \<open>
  The double nearest to 196.37807417710133, and a pose whose left ankle is at that
  height and whose nose is at height 100.
\<close>

definition ankle_y :: real where
  "ankle_y = 863679903991923 / 4398046511104"

definition rounding_pose :: Pose64 where
  "rounding_pose =
     \<lparr>keypoints64 = [keypoint64_at ''left_shoulder'' (Fin 100) (Fin 200),
                     keypoint64_at ''right_shoulder'' (Fin 400) (Fin 600),
                     keypoint64_at ''left_ankle'' (Fin 150) (Fin ankle_y),
                     keypoint64_at ''nose'' (Fin 150) (Fin 100)],
      pose_score64 = None\<rparr>"

text \<open>Scenario A of the specification on doubles.\<close>

definition scenarioA64 :: Pose64 where
  "scenarioA64 =
     \<lparr>keypoints64 = [keypoint64_at ''left_shoulder'' (Fin 100) (Fin 200),
                     keypoint64_at ''right_shoulder'' (Fin 200) (Fin 200),
                     keypoint64_at ''left_ankle'' (Fin 150) (Fin 600),
                     keypoint64_at ''nose'' (Fin 150) (Fin 100)],
      pose_score64 = None\<rparr>"



section \<open>Properties of calculateMeasurements\<close>

lemmas Math_defs = Math_round_def Math_pow2_def Math_sqrt_def Math_abs_def PIXEL_TO_CM_RATIO_def

lemmas scenario_defs = scenarioA_def no_ankle_def no_nose_def negative_pose_def keypoint_at_def

lemma find_keypoint_None: "find_keypoint n kps = None \<longleftrightarrow> \<not> (\<exists>k \<in> set kps. name k = Some n)"
  by (auto simp: find_keypoint_def find_None_iff)

lemma find_keypoint_has_landmark:
  "has_landmark pose n \<longleftrightarrow> (\<exists>k. find_keypoint n (keypoints pose) = Some k)"
  using find_keypoint_None [of n "keypoints pose"] by (auto simp: has_landmark_def)

lemma find_keypoint_name: "find_keypoint n kps = Some k \<Longrightarrow> name k = Some n \<and> k \<in> set kps"
  by (auto simp: find_keypoint_def find_Some_iff)

lemma has_required_iff:
  "has_required pose \<longleftrightarrow>
     has_landmark pose ''left_shoulder'' \<and> has_landmark pose ''right_shoulder'' \<and>
     has_landmark pose ''left_ankle'' \<and> has_landmark pose ''nose''"
  by (simp add: has_required_def REQUIRED_LANDMARKS_def)

lemma calculateMeasurements_Nil: "calculateMeasurements [] = None"
  by (simp add: calculateMeasurements_def)

lemma calculateMeasurements_found:
  assumes "find_keypoint ''left_shoulder'' (keypoints pose) = Some ls"
    and "find_keypoint ''right_shoulder'' (keypoints pose) = Some rs"
    and "find_keypoint ''left_ankle'' (keypoints pose) = Some la"
    and "find_keypoint ''nose'' (keypoints pose) = Some ns"
  shows "calculateMeasurements (pose # rest) =
         Some \<lparr>height = Math_round (Math_abs (y ns - y la) * PIXEL_TO_CM_RATIO),
               shoulderWidth =
                 Math_round (Math_sqrt (Math_pow2 (x rs - x ls) + Math_pow2 (y rs - y ls)) *
                             PIXEL_TO_CM_RATIO)\<rparr>"
  using assms by (simp add: calculateMeasurements_def)

lemma calculateMeasurements_missing:
  assumes "\<not> has_required pose"
  shows "calculateMeasurements (pose # rest) = None"
proof -
  from assms consider "find_keypoint ''left_shoulder'' (keypoints pose) = None"
    | "find_keypoint ''right_shoulder'' (keypoints pose) = None"
    | "find_keypoint ''left_ankle'' (keypoints pose) = None"
    | "find_keypoint ''nose'' (keypoints pose) = None"
    unfolding has_required_iff find_keypoint_has_landmark by fastforce
  then show ?thesis
    by cases (simp_all add: calculateMeasurements_def Let_def split: option.splits)
qed

lemma calculateMeasurements_Some_iff:
  "(\<exists>m. calculateMeasurements poses = Some m) \<longleftrightarrow> (\<exists>pose rest. poses = pose # rest \<and> has_required pose)"
proof (cases poses)
  case Nil
  then show ?thesis by (simp add: calculateMeasurements_Nil)
next
  case (Cons pose rest)
  show ?thesis
  proof (cases "has_required pose")
    case True
    then obtain ls rs la ns where
      "find_keypoint ''left_shoulder'' (keypoints pose) = Some ls"
      "find_keypoint ''right_shoulder'' (keypoints pose) = Some rs"
      "find_keypoint ''left_ankle'' (keypoints pose) = Some la"
      "find_keypoint ''nose'' (keypoints pose) = Some ns"
      unfolding has_required_iff find_keypoint_has_landmark by blast
    from calculateMeasurements_found [OF this] True Cons show ?thesis by simp
  next
    case False
    with calculateMeasurements_missing [OF False] Cons show ?thesis by simp
  qed
qed

lemma has_required_scenarioA: "has_required (scenarioA s1 s2 s3 s4)"
  by (simp add: has_required_iff has_landmark_def scenario_defs)

lemma scenarioA_value:
  "calculateMeasurements (scenarioA s1 s2 s3 s4 # rest) = Some \<lparr>height = 132, shoulderWidth = 26\<rparr>"
  by (simp add: calculateMeasurements_def scenario_defs find_keypoint_def Math_defs)

lemma has_required_relocate: "has_required (relocate f pose) = has_required pose"
  by (simp add: has_required_iff has_landmark_def relocate_def)

text \<open>
  Claim C3. Scenario A: when the first pose's left shoulder is at (100, 200), its right
  shoulder at (200, 200), its left ankle at (150, 600) and its nose at (150, 100), the
  result is exactly a shoulder width of 26 and a height of 132. Nothing is assumed of
  the scores, of the other keypoints or of the later poses.
\<close>

theorem scenarioA_measurement:
  assumes "find_keypoint ''left_shoulder'' (keypoints pose) = Some ls" "x ls = 100" "y ls = 200"
    and "find_keypoint ''right_shoulder'' (keypoints pose) = Some rs" "x rs = 200" "y rs = 200"
    and "find_keypoint ''left_ankle'' (keypoints pose) = Some la" "x la = 150" "y la = 600"
    and "find_keypoint ''nose'' (keypoints pose) = Some ns" "x ns = 150" "y ns = 100"
  shows "calculateMeasurements (pose # rest) = Some \<lparr>height = 132, shoulderWidth = 26\<rparr>"
proof -
  have "calculateMeasurements (pose # rest) =
          Some \<lparr>height = Math_round (Math_abs (y ns - y la) * PIXEL_TO_CM_RATIO),
                shoulderWidth =
                  Math_round (Math_sqrt (Math_pow2 (x rs - x ls) + Math_pow2 (y rs - y ls)) *
                              PIXEL_TO_CM_RATIO)\<rparr>"
    using assms(1,4,7,10) by (rule calculateMeasurements_found)
  also have "Math_round (Math_abs (y ns - y la) * PIXEL_TO_CM_RATIO) = 132"
    using assms by (simp add: Math_defs)
  also have "Math_round (Math_sqrt (Math_pow2 (x rs - x ls) + Math_pow2 (y rs - y ls)) *
                         PIXEL_TO_CM_RATIO) = 26"
    using assms by (simp add: Math_defs)
  finally show ?thesis .
qed

theorem scenarioA_measurement_witness:
  "calculateMeasurements [scenarioA (1 / 10) (9 / 10) 0 1] = Some \<lparr>height = 132, shoulderWidth = 26\<rparr>"
  by (rule scenarioA_measurement
        [of "scenarioA (1 / 10) (9 / 10) 0 1"
            "keypoint_at ''left_shoulder'' 100 200 (1 / 10)"
            "keypoint_at ''right_shoulder'' 200 200 (9 / 10)"
            "keypoint_at ''left_ankle'' 150 600 0"
            "keypoint_at ''nose'' 150 100 1"])
     (simp_all add: scenario_defs find_keypoint_def)

text \<open>
  Claim C10. The coordinates are not validated: when the first pose has the four
  required landmark names, a measurement is produced wherever its keypoints are put,
  at negative positions, at zero or beyond the 640 by 480 frame. The frame's width and
  height do not occur in \<open>calculateMeasurements\<close>.
\<close>

theorem no_coordinate_validation:
  assumes "has_required pose"
  shows "\<exists>m. calculateMeasurements (relocate f pose # rest) = Some m"
proof -
  from assms have "has_required (relocate f pose)"
    by (simp add: has_required_relocate)
  then show ?thesis
    using calculateMeasurements_Some_iff [of "relocate f pose # rest"] by simp
qed

theorem no_coordinate_validation_witness:
  "has_required (scenarioA 1 1 1 1) \<and>
   keypoints (relocate off_frame (scenarioA 1 1 1 1)) =
     [keypoint_at ''left_shoulder'' 1640 2480 1, keypoint_at ''right_shoulder'' 1640 2480 1,
      keypoint_at ''left_ankle'' 1640 2480 1, keypoint_at ''nose'' 0 (- 7) 1] \<and>
   CAMERA_WIDTH < 1640 \<and> CAMERA_HEIGHT < 2480 \<and>
   (\<exists>m. calculateMeasurements [relocate off_frame (scenarioA 1 1 1 1)] = Some m)"
proof -
  have h: "has_required (scenarioA 1 1 1 1)"
    by (simp add: has_required_iff has_landmark_def scenario_defs)
  have k: "keypoints (relocate off_frame (scenarioA 1 1 1 1)) =
     [keypoint_at ''left_shoulder'' 1640 2480 1, keypoint_at ''right_shoulder'' 1640 2480 1,
      keypoint_at ''left_ankle'' 1640 2480 1, keypoint_at ''nose'' 0 (- 7) 1]"
    by (simp add: relocate_def off_frame_def scenario_defs CAMERA_WIDTH_def CAMERA_HEIGHT_def)
  have c: "CAMERA_WIDTH < 1640 \<and> CAMERA_HEIGHT < 2480"
    by (simp add: CAMERA_WIDTH_def CAMERA_HEIGHT_def)
  from no_coordinate_validation [OF h, of off_frame "[]"] h k c show ?thesis by blast
qed

lemma map_option_eq_cases:
  "map_option f a = map_option f b \<Longrightarrow>
     (a = None \<and> b = None) \<or> (\<exists>k l. a = Some k \<and> b = Some l \<and> f k = f l)"
  by (cases a; cases b) auto

lemma calculateMeasurements_cong:
  assumes "same_landmarks p q"
  shows "calculateMeasurements (p # ps) = calculateMeasurements (q # qs)"
proof -
  from assms have
    "map_option position (find_keypoint ''left_shoulder'' (keypoints p)) =
     map_option position (find_keypoint ''left_shoulder'' (keypoints q))"
    "map_option position (find_keypoint ''right_shoulder'' (keypoints p)) =
     map_option position (find_keypoint ''right_shoulder'' (keypoints q))"
    "map_option position (find_keypoint ''left_ankle'' (keypoints p)) =
     map_option position (find_keypoint ''left_ankle'' (keypoints q))"
    "map_option position (find_keypoint ''nose'' (keypoints p)) =
     map_option position (find_keypoint ''nose'' (keypoints q))"
    by (simp_all add: same_landmarks_def REQUIRED_LANDMARKS_def)
  note eqs = this [THEN map_option_eq_cases]
  from eqs(1) eqs(2) eqs(3) eqs(4) show ?thesis
    by (elim disjE conjE exE)
       (simp_all add: calculateMeasurements_def Let_def position_def split: option.splits)
qed

lemma find_keypoint_same_except_score:
  assumes "list_all2 keypoint_same_except_score ks ls"
  shows "map_option position (find_keypoint n ks) = map_option position (find_keypoint n ls)"
  using assms unfolding find_keypoint_def
  by (induction rule: list_all2_induct) (auto simp: keypoint_same_except_score_def position_def)

lemma same_except_scores_landmarks: "pose_same_except_scores p q \<Longrightarrow> same_landmarks p q"
  by (simp add: pose_same_except_scores_def same_landmarks_def find_keypoint_same_except_score)

text \<open>
  Claim C4. When the first pose lacks a required landmark, the result is no
  measurement, whatever the later poses are, complete ones included: the result is that
  of the first pose alone.
\<close>

theorem first_pose_only:
  assumes "\<not> has_required pose"
  shows "calculateMeasurements (pose # rest) = None \<and>
         calculateMeasurements (pose # rest) = calculateMeasurements [pose]"
  using calculateMeasurements_missing [OF assms, of rest]
    calculateMeasurements_missing [OF assms, of "[]"] by simp

theorem first_pose_only_witness:
  "\<not> has_required no_ankle \<and> has_required (scenarioA 1 1 1 1) \<and>
   calculateMeasurements [scenarioA 1 1 1 1] = Some \<lparr>height = 132, shoulderWidth = 26\<rparr> \<and>
   calculateMeasurements [no_ankle, scenarioA 1 1 1 1] = None \<and>
   calculateMeasurements [no_ankle, scenarioA 1 1 1 1] = calculateMeasurements [no_ankle]"
proof -
  have h: "\<not> has_required no_ankle"
    by (simp add: has_required_iff has_landmark_def scenario_defs)
  have c: "has_required (scenarioA 1 1 1 1)"
    by (simp add: has_required_iff has_landmark_def scenario_defs)
  have v: "calculateMeasurements [scenarioA 1 1 1 1] = Some \<lparr>height = 132, shoulderWidth = 26\<rparr>"
    by (simp add: calculateMeasurements_def scenario_defs find_keypoint_def Math_defs)
  from first_pose_only [OF h, of "[scenarioA 1 1 1 1]"] h c v show ?thesis by blast
qed

section \<open>Properties of detect\<close>

lemma detect_starts_ready: "detect_starts (ready\<lparr>measurements := m\<rparr>)"
  by (simp add: detect_starts_def ready_def webcam_def)

lemma detect_resume_None: "calculateMeasurements poses = None \<Longrightarrow> detect_resume poses st = st"
  by (simp add: detect_resume_def)

lemma detect_resume_Some:
  "calculateMeasurements poses = Some m \<Longrightarrow> detect_resume poses st = st\<lparr>measurements := Some m\<rparr>"
  by (simp add: detect_resume_def)

lemma detect_resume_measurements:
  "measurements (detect_resume poses st) =
     (case calculateMeasurements poses of None \<Rightarrow> measurements st | Some m \<Rightarrow> Some m)"
  by (simp add: detect_resume_def split: option.splits)

lemma detect_resume_starts: "detect_starts (detect_resume poses st) = detect_starts st"
  by (simp add: detect_resume_def detect_starts_def split: option.splits)

text \<open>
  Claim C2. For the empty pose list and for a pose list whose first pose lacks one of
  the four required landmarks, the result is no measurement, and a cycle of \<open>detect\<close>
  that receives these poses leaves the component as it was, the published measurement
  included.
\<close>

theorem no_result_no_overwrite:
  assumes "poses = [] \<or> (\<exists>pose rest. poses = pose # rest \<and> \<not> has_required pose)"
  shows "calculateMeasurements poses = None \<and> detect poses st = st \<and>
         measurements (detect poses st) = measurements st"
proof -
  from assms have "calculateMeasurements poses = None"
    by (auto simp: calculateMeasurements_Nil calculateMeasurements_missing)
  then show ?thesis
    by (simp add: detect_def detect_resume_None)
qed

theorem no_result_no_overwrite_witness:
  "\<not> has_required no_nose \<and> detect_starts (ready\<lparr>measurements := Some \<lparr>height = 170, shoulderWidth = 40\<rparr>\<rparr>) \<and>
   calculateMeasurements [no_nose] = None \<and>
   measurements (detect [no_nose] (ready\<lparr>measurements := Some \<lparr>height = 170, shoulderWidth = 40\<rparr>\<rparr>)) =
     Some \<lparr>height = 170, shoulderWidth = 40\<rparr> \<and>
   calculateMeasurements [] = None \<and>
   measurements (detect [] (ready\<lparr>measurements := Some \<lparr>height = 170, shoulderWidth = 40\<rparr>\<rparr>)) =
     Some \<lparr>height = 170, shoulderWidth = 40\<rparr>"
proof -
  let ?st = "ready\<lparr>measurements := Some \<lparr>height = 170, shoulderWidth = 40\<rparr>\<rparr>"
  have h: "\<not> has_required no_nose"
    by (simp add: has_required_iff has_landmark_def scenario_defs)
  then have a: "[no_nose] = [] \<or> (\<exists>pose rest. [no_nose] = pose # rest \<and> \<not> has_required pose)"
    by simp
  have b: "([] :: Pose list) = [] \<or> (\<exists>pose rest. [] = pose # rest \<and> \<not> has_required pose)"
    by simp
  have m: "measurements ?st = Some \<lparr>height = 170, shoulderWidth = 40\<rparr>"
    by simp
  from no_result_no_overwrite [OF a, of ?st] no_result_no_overwrite [OF b, of ?st] h m
    detect_starts_ready [of "Some \<lparr>height = 170, shoulderWidth = 40\<rparr>"]
  show ?thesis by simp
qed

lemma detect_twice:
  assumes "calculateMeasurements poses = calculateMeasurements poses'"
  shows "detect poses (detect poses' st) = detect poses' st"
proof (cases "detect_starts st")
  case True
  then have "detect_starts (detect_resume poses' st)"
    by (simp add: detect_resume_starts)
  with True assms show ?thesis
    by (simp add: detect_def detect_resume_def split: option.splits)
next
  case False
  then show ?thesis by (simp add: detect_def)
qed

text \<open>
  Claim C6. The result of \<open>calculateMeasurements\<close> is a function of the positions of the
  four landmarks of the first pose and of nothing else: two pose lists whose first poses
  have the same landmarks give the same result, and so does the same pose list given
  twice. The component is no argument of the function, so no earlier call and no state
  of the pipeline can change its value: a cycle of \<open>detect\<close> that follows a cycle on the
  same landmarks publishes the same measurement again and changes nothing.
\<close>

theorem calculateMeasurements_pure:
  assumes "same_landmarks p q"
  shows "calculateMeasurements (p # ps) = calculateMeasurements (q # qs) \<and>
         detect (p # ps) (detect (q # qs) st) = detect (q # qs) st"
  using calculateMeasurements_cong [OF assms, of ps qs] by (simp add: detect_twice)

theorem calculateMeasurements_pure_witness:
  "same_landmarks (scenarioA 1 1 1 1) (scenarioA 1 1 1 1) \<and>
   calculateMeasurements [scenarioA 1 1 1 1, no_nose] = calculateMeasurements [scenarioA 1 1 1 1, no_nose] \<and>
   measurements (detect [scenarioA 1 1 1 1, no_nose] ready) = Some \<lparr>height = 132, shoulderWidth = 26\<rparr> \<and>
   detect [scenarioA 1 1 1 1, no_nose] (detect [scenarioA 1 1 1 1, no_nose] ready) =
     detect [scenarioA 1 1 1 1, no_nose] ready"
proof -
  have h: "same_landmarks (scenarioA 1 1 1 1) (scenarioA 1 1 1 1)"
    by (simp add: same_landmarks_def)
  have "detect_starts ready"
    using detect_starts_ready [of None] by (simp add: ready_def)
  then have v: "measurements (detect [scenarioA 1 1 1 1, no_nose] ready) =
      Some \<lparr>height = 132, shoulderWidth = 26\<rparr>"
    by (simp add: detect_def detect_resume_measurements scenarioA_value)
  from calculateMeasurements_pure [OF h, of "[no_nose]" "[no_nose]" ready] h v
  show ?thesis by simp
qed

text \<open>
  Claim C8. The scores of the keypoints are not used: two pose lists that are the same
  except for the scores of their keypoints give the same result.
\<close>

theorem confidence_irrelevant:
  assumes "same_except_confidence ps qs"
  shows "calculateMeasurements ps = calculateMeasurements qs"
proof (cases ps)
  case Nil
  with assms show ?thesis by (simp add: same_except_confidence_def)
next
  case (Cons p ps')
  with assms obtain q qs' where qs: "qs = q # qs'" and pq: "pose_same_except_scores p q"
    by (auto simp: same_except_confidence_def list_all2_Cons1)
  from pq have "same_landmarks p q"
    by (rule same_except_scores_landmarks)
  then show ?thesis
    unfolding Cons qs by (rule calculateMeasurements_cong)
qed

theorem confidence_irrelevant_witness:
  "same_except_confidence [scenarioA 1 1 1 1, no_nose] [scenarioA 0 (1 / 2) (1 / 3) (1 / 4), no_nose] \<and>
   scenarioA 1 1 1 1 \<noteq> scenarioA 0 (1 / 2) (1 / 3) (1 / 4) \<and>
   calculateMeasurements [scenarioA 1 1 1 1, no_nose] =
     calculateMeasurements [scenarioA 0 (1 / 2) (1 / 3) (1 / 4), no_nose]"
proof -
  have h: "same_except_confidence [scenarioA 1 1 1 1, no_nose]
             [scenarioA 0 (1 / 2) (1 / 3) (1 / 4), no_nose]"
    by (simp add: same_except_confidence_def pose_same_except_scores_def
        keypoint_same_except_score_def scenario_defs)
  have d: "scenarioA 1 1 1 1 \<noteq> scenarioA 0 (1 / 2) (1 / 3) (1 / 4)"
    by (simp add: scenario_defs)
  from confidence_irrelevant [OF h] h d show ?thesis by simp
qed

section \<open>Properties of the running pipeline\<close>

lemma run_Nil: "run [] p = p"
  by (simp add: run_def)

lemma run_Cons: "run (ev # evs) p = run evs (step ev p)"
  by (simp add: run_def)

lemma run_append: "run (evs @ evs') p = run evs' (run evs p)"
  by (simp add: run_def)

lemma step_published:
  "published (step ev p) = published p \<or>
   (\<exists>poses m. ev = Resolved poses \<and> calculateMeasurements poses = Some m \<and>
      published (step ev p) = Some m)"
  by (cases ev)
     (auto simp: step_def published_def detect_resume_measurements split: option.splits)

lemma run_published:
  "published (run evs p) = published p \<or>
   (\<exists>poses m. Resolved poses \<in> set evs \<and> calculateMeasurements poses = Some m \<and>
      published (run evs p) = Some m)"
proof (induction evs arbitrary: p)
  case Nil
  then show ?case by (simp add: run_Nil)
next
  case (Cons ev evs)
  from Cons.IH [of "step ev p"] step_published [of ev p] show ?case
    unfolding run_Cons by (elim disjE exE conjE) (simp, fastforce+)
qed

lemma run_published_kept:
  assumes "published p \<noteq> None"
  shows "published (run evs p) \<noteq> None"
  using run_published [of evs p] assms by auto

lemma detect_published:
  "measurements (detect poses st) = measurements st \<or>
   (\<exists>m. calculateMeasurements poses = Some m \<and> measurements (detect poses st) = Some m)"
  by (simp add: detect_def detect_resume_measurements split: option.splits)

lemma cycle_is_detect:
  assumes "outstanding p = 0"
  shows "run [Tick, Resolved poses] p = p\<lparr>component := detect poses (component p)\<rparr>"
  using assms by (simp add: run_def step_def detect_def)

lemma run_make_ready: "run make_ready start = \<lparr>component = ready, outstanding = 0\<rparr>"
  by (simp add: run_def make_ready_def start_def step_def initial_def ready_def)

lemma detect_starts_ready': "detect_starts ready"
  by (simp add: detect_starts_def ready_def webcam_def)

text \<open>
  Claim C5. The published measurement is never cleared. The component starts with no
  measurement. A cycle of \<open>detect\<close> leaves the published measurement as it was or
  replaces it by the measurement computed in that cycle. In every run from the start,
  of any events in any order, once a measurement is published one is published ever
  after.
\<close>

theorem never_cleared:
  "published start = None \<and>
   (measurements (detect poses st) = measurements st \<or>
    (\<exists>m. calculateMeasurements poses = Some m \<and> measurements (detect poses st) = Some m)) \<and>
   (published (run evs start) \<noteq> None \<longrightarrow> published (run (evs @ evs') start) \<noteq> None)"
proof -
  have "published start = None"
    by (simp add: published_def start_def initial_def)
  moreover note detect_published [of poses st]
  moreover have "published (run evs start) \<noteq> None \<longrightarrow>
      published (run (evs @ evs') start) \<noteq> None"
    unfolding run_append by (simp add: run_published_kept)
  ultimately show ?thesis by blast
qed

theorem never_cleared_witness:
  "published (run (make_ready @ [Tick, Resolved [scenarioA 1 1 1 1]]) start) =
     Some \<lparr>height = 132, shoulderWidth = 26\<rparr> \<and>
   published (run ((make_ready @ [Tick, Resolved [scenarioA 1 1 1 1]]) @
                   [Tick, Resolved [no_nose], Tick, Resolved [], Tick, Rejected]) start) \<noteq> None \<and>
   measurements (detect [no_nose] (ready\<lparr>measurements := Some \<lparr>height = 132, shoulderWidth = 26\<rparr>\<rparr>)) =
     Some \<lparr>height = 132, shoulderWidth = 26\<rparr>"
proof -
  let ?evs = "make_ready @ [Tick, Resolved [scenarioA 1 1 1 1]]"
  let ?evs' = "[Tick, Resolved [no_nose], Tick, Resolved [], Tick, Rejected]"
  let ?st = "ready\<lparr>measurements := Some \<lparr>height = 132, shoulderWidth = 26\<rparr>\<rparr>"
  have a: "published (run ?evs start) = Some \<lparr>height = 132, shoulderWidth = 26\<rparr>"
    unfolding run_append run_make_ready
    by (simp add: run_def step_def published_def detect_starts_ready'
        detect_resume_measurements scenarioA_value)
  have "\<not> has_required no_nose"
    by (simp add: has_required_iff has_landmark_def scenario_defs)
  then have n: "calculateMeasurements [no_nose] = None"
    by (rule calculateMeasurements_missing)
  from never_cleared [of "[no_nose]" ?st ?evs ?evs'] a n show ?thesis
    by simp
qed

text \<open>
  Claim C9, as stated: a tick that fires while a detection is outstanding starts no
  second one. The timer has no such guard: once the component is ready, the first tick
  starts a detection and the second tick, with the first detection still outstanding,
  starts another.
\<close>

theorem second_detection_counterexample:
  "outstanding (run (make_ready @ [Tick]) start) = 1 \<and>
   outstanding (run (make_ready @ [Tick, Tick]) start) = 2"
  unfolding run_append run_make_ready
  by (simp add: run_def step_def detect_starts_ready')

text \<open>
  Claim C9, amended. A tick starts a detection whenever the detector and the video are
  there, also while earlier detections are outstanding. Under every interleaving of
  ticks and completions, the published measurement is the one published before or a
  complete measurement, the one \<open>calculateMeasurements\<close> gives for the poses of a
  detection that resolved in between.
\<close>

theorem overlapping_detections:
  "(detect_starts (component p) \<longrightarrow> outstanding (step Tick p) = outstanding p + 1) \<and>
   (published (run evs p) = published p \<or>
    (\<exists>poses m. Resolved poses \<in> set evs \<and> calculateMeasurements poses = Some m \<and>
       published (run evs p) = Some m))"
  using run_published [of evs p] by (simp add: step_def)

theorem overlapping_detections_witness:
  "detect_starts (component (run (make_ready @ [Tick]) start)) \<and>
   outstanding (run (make_ready @ [Tick]) start) = 1 \<and>
   outstanding (step Tick (run (make_ready @ [Tick]) start)) = 2 \<and>
   published (run [Tick, Resolved [scenarioA 1 1 1 1], Resolved [negative_pose]]
                (run (make_ready @ [Tick]) start)) =
     Some \<lparr>height = 238, shoulderWidth = 132\<rparr>"
proof -
  let ?p = "run (make_ready @ [Tick]) start"
  let ?evs = "[Tick, Resolved [scenarioA 1 1 1 1], Resolved [negative_pose]]"
  have p: "?p = \<lparr>component = ready, outstanding = 1\<rparr>"
    unfolding run_append run_make_ready
    by (simp add: run_def step_def detect_starts_ready')
  have "sqrt (250000 :: real) = 500"
    using real_sqrt_abs2 [of "500 :: real"] by simp
  then have v: "calculateMeasurements [negative_pose] = Some \<lparr>height = 238, shoulderWidth = 132\<rparr>"
    by (simp add: calculateMeasurements_def scenario_defs find_keypoint_def Math_defs)
  have r: "published (run ?evs ?p) = Some \<lparr>height = 238, shoulderWidth = 132\<rparr>"
    unfolding p
    by (simp add: run_def step_def published_def detect_starts_ready'
        detect_resume_starts detect_resume_measurements scenarioA_value v)
  from overlapping_detections [of ?p ?evs] p r show ?thesis
    by (simp add: detect_starts_ready')
qed

section \<open>Properties in double precision\<close>

subsection \<open>Rounding\<close>

lemma expo_search_props:
  "e \<le> expo_search n e a \<and> expo_search n e a \<le> e + int n \<and>
   (expo_search n e a < e + int n \<longrightarrow> a < 2 powi (expo_search n e a + 1)) \<and>
   (e < expo_search n e a \<longrightarrow> 2 powi (expo_search n e a) \<le> a)"
proof (induction n arbitrary: e)
  case 0
  show ?case by simp
next
  case (Suc n)
  show ?case
  proof (cases "a < 2 powi (e + 1)")
    case True
    then show ?thesis by simp
  next
    case False
    define s where "s = expo_search n (e + 1) a"
    from Suc.IH [of "e + 1"] have ih: "e + 1 \<le> s" "s \<le> e + 1 + int n"
      "s < e + 1 + int n \<longrightarrow> a < 2 powi (s + 1)" "e + 1 < s \<longrightarrow> 2 powi s \<le> a"
      by (simp_all add: s_def)
    have "2 powi s \<le> a"
    proof (cases "s = e + 1")
      case True
      with False show ?thesis by simp
    next
      case False
      with ih(1,4) show ?thesis by simp
    qed
    moreover from False have "expo_search (Suc n) e a = s"
      by (simp add: s_def)
    ultimately show ?thesis using ih by simp
  qed
qed

lemma expo_ge: "- 1022 \<le> expo r"
  using expo_search_props [of "- 1022" 2046 "\<bar>r\<bar>"] by (simp add: expo_def)

lemma expo_lower: "- 1022 < expo r \<Longrightarrow> 2 powi (expo r) \<le> \<bar>r\<bar>"
  using expo_search_props [of "- 1022" 2046 "\<bar>r\<bar>"] by (simp add: expo_def)

lemma expo_upper: "expo r < 1024 \<Longrightarrow> \<bar>r\<bar> < 2 powi (expo r + 1)"
  using expo_search_props [of "- 1022" 2046 "\<bar>r\<bar>"] by (simp add: expo_def)

lemma expo_le:
  assumes "\<bar>r\<bar> \<le> 2 powi k" and "- 1022 \<le> k"
  shows "expo r \<le> k"
proof (rule ccontr)
  assume "\<not> expo r \<le> k"
  then have k: "k < expo r" by simp
  with assms(2) have "2 powi (expo r) \<le> \<bar>r\<bar>"
    by (intro expo_lower) simp
  moreover from k have "(2 :: real) powi k < 2 powi (expo r)"
    by (intro power_int_strict_increasing) simp_all
  ultimately show False using assms(1) by simp
qed

lemma expo_eqI:
  assumes "- 1022 \<le> e" and "e \<le> 1023"
    and "e = - 1022 \<or> 2 powi e \<le> \<bar>r\<bar>" and "\<bar>r\<bar> < 2 powi (e + 1)"
  shows "expo r = e"
proof (rule antisym)
  show "expo r \<le> e"
  proof (rule ccontr)
    assume "\<not> expo r \<le> e"
    then have k: "e + 1 \<le> expo r" by simp
    with assms(1) have "2 powi (expo r) \<le> \<bar>r\<bar>"
      by (intro expo_lower) simp
    moreover from k have "(2 :: real) powi (e + 1) \<le> 2 powi (expo r)"
      by (intro power_int_increasing) simp_all
    ultimately show False using assms(4) by simp
  qed
  show "e \<le> expo r"
  proof (rule ccontr)
    assume "\<not> e \<le> expo r"
    then have k: "expo r + 1 \<le> e" by simp
    with assms(2) have "\<bar>r\<bar> < 2 powi (expo r + 1)"
      by (intro expo_upper) simp
    moreover from k have "(2 :: real) powi (expo r + 1) \<le> 2 powi e"
      by (intro power_int_increasing) simp_all
    moreover from k expo_ge [of r] assms(3) have "2 powi e \<le> \<bar>r\<bar>"
      by auto
    ultimately show False by simp
  qed
qed

lemma expo_minus: "expo (- r) = expo r"
  by (simp add: expo_def)

lemma ulp_pos: "0 < ulp r"
  by (simp add: ulp_def)

lemma ulp_minus: "ulp (- r) = ulp r"
  by (simp add: ulp_def expo_minus)

lemma rne_of_int: "rne (of_int n) = n"
  by (simp add: rne_def)

lemma rne_le: "v \<le> of_int n \<Longrightarrow> rne v \<le> n"
  unfolding rne_def Let_def by (auto; linarith)

lemma rne_ge: "of_int n \<le> v \<Longrightarrow> n \<le> rne v"
  unfolding rne_def Let_def by (auto; linarith)

lemma rne_minus: "rne (- v) = - rne v"
proof (cases "v = of_int \<lfloor>v\<rfloor>")
  case True
  then obtain n where "v = of_int n" ..
  then have "- v = of_int (- n)" by simp
  then show ?thesis
    unfolding \<open>v = of_int n\<close> by (simp only: rne_of_int)
next
  case False
  then have f: "\<lfloor>- v\<rfloor> = - \<lfloor>v\<rfloor> - 1"
    by (metis ceiling_altdef ceiling_def add_diff_cancel_right' minus_diff_eq minus_minus
        diff_minus_eq_add uminus_add_conv_diff)
  show ?thesis
    unfolding rne_def Let_def f by (auto; linarith?)
qed

lemma rd_minus: "rd (- r) = - rd r"
  by (simp add: rd_def ulp_minus rne_minus)

lemma rd_0: "rd 0 = 0"
  using rne_of_int [of 0] by (simp add: rd_def)

lemma rd_nonneg: "0 \<le> r \<Longrightarrow> 0 \<le> rd r"
  using rne_ge [of 0 "r / ulp r"] ulp_pos [of r] by (simp add: rd_def)

lemma rd_abs: "\<bar>rd r\<bar> = rd \<bar>r\<bar>"
  using rd_nonneg [of r] rd_nonneg [of "- r"] by (cases "0 \<le> r") (simp_all add: rd_minus)

lemma rd_le:
  assumes "0 \<le> r" and "r \<le> 2 powi k" and "- 1022 \<le> k"
  shows "rd r \<le> 2 powi k"
proof -
  let ?n = "nat (k - expo r + 52)"
  from assms have e: "expo r \<le> k"
    by (intro expo_le) simp_all
  then have p: "(2 :: real) powi (k - expo r + 52) = of_int (2 ^ ?n)"
    by (simp add: power_int_def)
  have "r / ulp r \<le> 2 powi k / ulp r"
    using assms(2) ulp_pos [of r] by (simp add: divide_right_mono)
  also have "\<dots> = 2 powi (k - (expo r - 52))"
    unfolding ulp_def by (rule power_int_diff [symmetric]) simp
  also have "k - (expo r - 52) = k - expo r + 52"
    by simp
  finally have "rne (r / ulp r) \<le> 2 ^ ?n"
    unfolding p by (rule rne_le)
  then have "rd r \<le> of_int (2 ^ ?n) * ulp r"
    unfolding rd_def using ulp_pos [of r] by (simp add: mult_right_mono)
  also have "\<dots> = 2 powi (k - expo r + 52) * ulp r"
    using p by simp
  also have "\<dots> = 2 powi (k - expo r + 52 + (expo r - 52))"
    unfolding ulp_def by (rule power_int_add [symmetric]) simp
  also have "k - expo r + 52 + (expo r - 52) = k"
    by simp
  finally show ?thesis .
qed

lemma rd_eqI:
  assumes "- 1022 \<le> e" and "e \<le> 1023"
    and "e = - 1022 \<or> 2 powi e \<le> \<bar>r\<bar>" and "\<bar>r\<bar> < 2 powi (e + 1)"
  shows "rd r = of_int (rne (r / 2 powi (e - 52))) * 2 powi (e - 52)"
  using expo_eqI [OF assms] by (simp add: rd_def ulp_def)

lemma fl_Fin: "0 \<le> r \<Longrightarrow> rd r < 2 ^ 1024 \<Longrightarrow> fl r = Fin (rd r)"
  using rd_nonneg [of r] by (simp add: fl_def Let_def)

lemma fl_finite: "\<bar>rd r\<bar> < 2 ^ 1024 \<Longrightarrow> is_finite (fl r) \<and> val (fl r) = rd r"
  by (simp add: fl_def Let_def)


lemma rd_le_power:
  assumes "\<bar>r\<bar> \<le> 2 ^ k"
  shows "\<bar>rd r\<bar> \<le> 2 ^ k"
proof -
  have "rd \<bar>r\<bar> \<le> 2 powi (int k)"
    using assms by (intro rd_le) simp_all
  then show ?thesis by (simp add: rd_abs)
qed

lemma ratio_le_1: "rd (264583 / 1000000) \<le> 1"
  using rd_le [of "264583 / 1000000" 0] by simp

lemma ratio_nonneg: "0 \<le> rd (264583 / 1000000)"
  by (rule rd_nonneg) simp

lemma ratio_value: "rd (264583 / 1000000) = 148946987526071 / 562949953421312"
  by (subst rd_eqI [of "- 2"]) (simp_all add: rne_def)

lemma PIXEL_TO_CM_RATIO64_value: "PIXEL_TO_CM_RATIO64 = Fin (rd (264583 / 1000000))"
  unfolding PIXEL_TO_CM_RATIO64_def using ratio_le_1 by (intro fl_Fin) simp_all

lemma Number_subtract_Fin: "Number_subtract (Fin a) (Fin b) = fl (a - b)"
  by (simp add: Number_subtract_def Number_add_def)

lemma Number_add_Fin: "Number_add (Fin a) (Fin b) = fl (a + b)"
  by (simp add: Number_add_def)

lemma Number_multiply_nonneg:
  assumes "0 \<le> a" and "0 \<le> b" and "rd (a * b) < 2 ^ 1024"
  shows "Number_multiply (Fin a) (Fin b) = Fin (rd (a * b))"
proof (cases "a = 0 \<or> b = 0")
  case True
  with assms show ?thesis by (auto simp: Number_multiply_def rd_0)
next
  case False
  with assms have "Number_multiply (Fin a) (Fin b) = fl (a * b)"
    by (simp add: Number_multiply_def)
  with assms show ?thesis by (simp add: fl_Fin)
qed

lemma Math_abs64_finite: "is_finite n \<Longrightarrow> Math_abs64 n = Fin \<bar>val n\<bar>"
  by (cases n) simp_all

lemma Math_pow64_2_finite:
  assumes "is_finite n" and "rd (val n * val n) < 2 ^ 1024"
  shows "Math_pow64_2 n = Fin (rd (val n * val n))"
  using assms by (cases n) (simp_all add: rd_0 fl_Fin)

lemma Math_sqrt64_nonneg:
  assumes "0 \<le> r" and "rd (sqrt r) < 2 ^ 1024"
  shows "Math_sqrt64 (Fin r) = Fin (rd (sqrt r))"
  using assms by (simp add: rd_0 fl_Fin)

lemma Math_round64_nonneg: "0 \<le> r \<Longrightarrow> Math_round64 (Fin r) = Fin (of_int (round r))"
proof -
  assume "0 \<le> r"
  then have "\<not> r < 0" by simp
  then show ?thesis by (simp add: round_def Let_def)
qed

lemma below_overflow:
  assumes "v \<le> 2 ^ k" and "k < 1024"
  shows "v < (2 :: real) ^ 1024"
proof -
  from assms(2) have "(2 :: real) ^ k < 2 ^ 1024"
    by (rule power_strict_increasing) simp
  with assms(1) show ?thesis by (rule order_le_less_trans)
qed

lemma rd_below_overflow:
  assumes "\<bar>r\<bar> \<le> 2 ^ k" and "k < 1024"
  shows "\<bar>rd r\<bar> < 2 ^ 1024"
  using rd_le_power [OF assms(1)] assms(2) by (rule below_overflow)

lemma diff_bound:
  fixes a b :: real
  assumes "\<bar>a\<bar> \<le> 2 ^ k" and "\<bar>b\<bar> \<le> 2 ^ k"
  shows "\<bar>a - b\<bar> \<le> 2 ^ Suc k"
proof -
  have "\<bar>a - b\<bar> \<le> \<bar>a\<bar> + \<bar>b\<bar>" by (rule abs_triangle_ineq4)
  also from assms have "\<dots> \<le> 2 ^ k + 2 ^ k" by (rule add_mono)
  also have "\<dots> = 2 ^ Suc k" by simp
  finally show ?thesis .
qed

lemma times_ratio_bound:
  assumes "0 \<le> w" and "w \<le> 2 ^ k"
  shows "\<bar>w * rd (264583 / 1000000)\<bar> \<le> 2 ^ k"
proof -
  have "w * rd (264583 / 1000000) \<le> 2 ^ k * 1"
    using assms ratio_le_1 ratio_nonneg by (intro mult_mono) simp_all
  moreover have "0 \<le> w * rd (264583 / 1000000)"
    using assms(1) ratio_nonneg by (rule mult_nonneg_nonneg)
  ultimately show ?thesis by simp
qed

lemma scale_formula:
  assumes "0 \<le> w" and "w \<le> 2 ^ k" and "k < 1024"
  shows "Math_round64 (Number_multiply (Fin w) PIXEL_TO_CM_RATIO64) =
         Fin (of_int (round (rd (w * rd (264583 / 1000000)))))"
proof -
  let ?c = "rd (264583 / 1000000)"
  have b: "\<bar>w * ?c\<bar> \<le> 2 ^ k"
    using assms(1,2) by (rule times_ratio_bound)
  have nn: "0 \<le> w * ?c"
    using assms(1) ratio_nonneg by (rule mult_nonneg_nonneg)
  then have p: "0 \<le> rd (w * ?c)" by (rule rd_nonneg)
  have "\<bar>rd (w * ?c)\<bar> < 2 ^ 1024"
    using b assms(3) by (rule rd_below_overflow)
  with p have "rd (w * ?c) < 2 ^ 1024" by simp
  with assms(1) ratio_nonneg
  have "Number_multiply (Fin w) (Fin ?c) = Fin (rd (w * ?c))"
    by (rule Number_multiply_nonneg)
  with p show ?thesis
    unfolding PIXEL_TO_CM_RATIO64_value by (simp only: Math_round64_nonneg)
qed

lemma height_formula:
  assumes "\<bar>ny\<bar> \<le> 2 ^ k" and "\<bar>ay\<bar> \<le> 2 ^ k" and "Suc k < 1024"
  shows "Math_round64 (Number_multiply (Math_abs64 (Number_subtract (Fin ny) (Fin ay)))
           PIXEL_TO_CM_RATIO64) =
         Fin (of_int (round (rd (\<bar>rd (ny - ay)\<bar> * rd (264583 / 1000000)))))"
proof -
  have d: "\<bar>ny - ay\<bar> \<le> 2 ^ Suc k"
    using assms(1,2) by (rule diff_bound)
  then have "\<bar>rd (ny - ay)\<bar> < 2 ^ 1024"
    using assms(3) by (rule rd_below_overflow)
  then have "is_finite (fl (ny - ay)) \<and> val (fl (ny - ay)) = rd (ny - ay)"
    by (rule fl_finite)
  then have sub: "Math_abs64 (Number_subtract (Fin ny) (Fin ay)) = Fin \<bar>rd (ny - ay)\<bar>"
    unfolding Number_subtract_Fin by (simp only: Math_abs64_finite)
  have "\<bar>rd (ny - ay)\<bar> \<le> 2 ^ Suc k"
    using d by (rule rd_le_power)
  with abs_ge_zero show ?thesis
    unfolding sub using assms(3) by (rule scale_formula)
qed

lemma square_formula:
  assumes "\<bar>a\<bar> \<le> 2 ^ k" and "\<bar>b\<bar> \<le> 2 ^ k" and "Suc k + Suc k < 1024"
  shows "Math_pow64_2 (Number_subtract (Fin a) (Fin b)) = Fin (rd (rd (a - b) * rd (a - b)))"
    and "0 \<le> rd (rd (a - b) * rd (a - b))"
    and "rd (rd (a - b) * rd (a - b)) \<le> 2 ^ (Suc k + Suc k)"
proof -
  let ?u = "rd (a - b)"
  have "\<bar>a - b\<bar> \<le> 2 ^ Suc k"
    using assms(1,2) by (rule diff_bound)
  then have u: "\<bar>?u\<bar> \<le> 2 ^ Suc k" by (rule rd_le_power)
  moreover from assms(3) have "Suc k < 1024" by simp
  ultimately have "\<bar>?u\<bar> < 2 ^ 1024" by (rule below_overflow)
  then have f: "is_finite (fl (a - b))" "val (fl (a - b)) = ?u"
    using fl_finite [of "a - b"] by simp_all
  have "\<bar>?u\<bar> * \<bar>?u\<bar> \<le> 2 ^ Suc k * 2 ^ Suc k"
    using u u by (intro mult_mono) simp_all
  then have sq: "\<bar>?u * ?u\<bar> \<le> 2 ^ (Suc k + Suc k)"
    by (simp only: abs_mult power_add)
  then have b: "\<bar>rd (?u * ?u)\<bar> \<le> 2 ^ (Suc k + Suc k)" by (rule rd_le_power)
  show nn: "0 \<le> rd (?u * ?u)" by (rule rd_nonneg) simp
  with b show "rd (?u * ?u) \<le> 2 ^ (Suc k + Suc k)" by simp
  from b assms(3) have "\<bar>rd (?u * ?u)\<bar> < 2 ^ 1024" by (rule below_overflow)
  with nn have "rd (?u * ?u) < 2 ^ 1024" by simp
  with f show "Math_pow64_2 (Number_subtract (Fin a) (Fin b)) = Fin (rd (?u * ?u))"
    unfolding Number_subtract_Fin using Math_pow64_2_finite [of "fl (a - b)"] by simp
qed

lemma shoulder_formula:
  assumes "\<bar>lx\<bar> \<le> 2 ^ k" and "\<bar>rx\<bar> \<le> 2 ^ k" and "\<bar>ly\<bar> \<le> 2 ^ k" and "\<bar>ry\<bar> \<le> 2 ^ k"
    and "Suc (Suc k + Suc k) < 1024"
  shows "Math_round64 (Number_multiply
           (Math_sqrt64 (Number_add (Math_pow64_2 (Number_subtract (Fin rx) (Fin lx)))
                                    (Math_pow64_2 (Number_subtract (Fin ry) (Fin ly)))))
           PIXEL_TO_CM_RATIO64) =
         Fin (of_int (round (rd (rd (sqrt (rd (rd (rd (rx - lx) * rd (rx - lx)) +
                                             rd (rd (ry - ly) * rd (ry - ly))))) *
                                   rd (264583 / 1000000)))))"
proof -
  let ?p = "rd (rd (rx - lx) * rd (rx - lx))"
  let ?q = "rd (rd (ry - ly) * rd (ry - ly))"
  let ?K = "Suc k + Suc k"
  from assms(5) have K: "?K < 1024" by simp
  note px = square_formula [OF assms(2) assms(1) K]
  note py = square_formula [OF assms(4) assms(3) K]
  have nn: "0 \<le> ?p + ?q" using px(2) py(2) by (rule add_nonneg_nonneg)
  have "?p + ?q \<le> 2 ^ ?K + 2 ^ ?K" using px(3) py(3) by (rule add_mono)
  also have "\<dots> = 2 ^ Suc ?K" by simp
  finally have s: "\<bar>?p + ?q\<bar> \<le> 2 ^ Suc ?K" using nn by simp
  then have bs: "\<bar>rd (?p + ?q)\<bar> \<le> 2 ^ Suc ?K" by (rule rd_le_power)
  have ns: "0 \<le> rd (?p + ?q)" using nn by (rule rd_nonneg)
  from bs assms(5) have "\<bar>rd (?p + ?q)\<bar> < 2 ^ 1024" by (rule below_overflow)
  with ns have "rd (?p + ?q) < 2 ^ 1024" by simp
  with nn have sum: "Number_add (Fin ?p) (Fin ?q) = Fin (rd (?p + ?q))"
    unfolding Number_add_Fin by (rule fl_Fin)
  have "(2 :: real) ^ Suc ?K \<le> 2 ^ (Suc (Suc k) + Suc (Suc k))"
    by (rule power_increasing) simp_all
  also have "\<dots> = (2 ^ Suc (Suc k))\<^sup>2"
    by (simp only: power2_eq_square power_add)
  finally have "rd (?p + ?q) \<le> (2 ^ Suc (Suc k))\<^sup>2"
    using bs ns by simp
  then have r: "sqrt (rd (?p + ?q)) \<le> 2 ^ Suc (Suc k)"
    by (intro real_le_lsqrt) simp_all
  have nr: "0 \<le> sqrt (rd (?p + ?q))" using ns by simp
  from r nr have "\<bar>sqrt (rd (?p + ?q))\<bar> \<le> 2 ^ Suc (Suc k)" by simp
  then have bw: "\<bar>rd (sqrt (rd (?p + ?q)))\<bar> \<le> 2 ^ Suc (Suc k)" by (rule rd_le_power)
  have nw: "0 \<le> rd (sqrt (rd (?p + ?q)))" using nr by (rule rd_nonneg)
  from assms(5) have k2: "Suc (Suc k) < 1024" by simp
  from bw k2 have "\<bar>rd (sqrt (rd (?p + ?q)))\<bar> < 2 ^ 1024" by (rule below_overflow)
  with nw have "rd (sqrt (rd (?p + ?q))) < 2 ^ 1024" by simp
  with ns have root: "Math_sqrt64 (Fin (rd (?p + ?q))) = Fin (rd (sqrt (rd (?p + ?q))))"
    by (rule Math_sqrt64_nonneg)
  from bw nw have "rd (sqrt (rd (?p + ?q))) \<le> 2 ^ Suc (Suc k)" by simp
  with nw show ?thesis
    unfolding px(1) py(1) sum root using k2 by (rule scale_formula)
qed

subsection \<open>Landmarks and signs\<close>

lemma find_keypoint64_first_named:
  "first_named n kps k \<longleftrightarrow> find_keypoint64 n kps = Some k"
  unfolding first_named_def find_keypoint64_def find_Some_iff by auto






lemma calculateMeasurements64_found:
  assumes "first_named ''left_shoulder'' (keypoints64 pose) ls"
    and "first_named ''right_shoulder'' (keypoints64 pose) rs"
    and "first_named ''left_ankle'' (keypoints64 pose) la"
    and "first_named ''nose'' (keypoints64 pose) ns"
  shows "calculateMeasurements64 (pose # rest) =
         Some \<lparr>height64 =
                 Math_round64 (Number_multiply (Math_abs64 (Number_subtract (y64 ns) (y64 la)))
                   PIXEL_TO_CM_RATIO64),
               shoulderWidth64 =
                 Math_round64 (Number_multiply
                   (Math_sqrt64 (Number_add (Math_pow64_2 (Number_subtract (x64 rs) (x64 ls)))
                                            (Math_pow64_2 (Number_subtract (y64 rs) (y64 ls)))))
                   PIXEL_TO_CM_RATIO64)\<rparr>"
  using assms unfolding find_keypoint64_first_named by (simp add: calculateMeasurements64_def)











subsection \<open>Values\<close>

lemma rd_values:
  "rd 300 = 300" "rd 400 = 400" "rd 500 = 500" "rd 900 = 900"
  "rd 90000 = 90000" "rd 160000 = 160000" "rd 250000 = 250000"
  by (subst rd_eqI [of 8], simp_all add: rne_def)
     (subst rd_eqI [of 8], simp_all add: rne_def,
      subst rd_eqI [of 8], simp_all add: rne_def,
      subst rd_eqI [of 9], simp_all add: rne_def,
      subst rd_eqI [of 16], simp_all add: rne_def,
      subst rd_eqI [of 17], simp_all add: rne_def,
      subst rd_eqI [of 17], simp_all add: rne_def)

lemma ankle_y_literal: "rd (19637807417710133 / 100000000000000) = ankle_y"
  by (subst rd_eqI [of 7]) (simp_all add: rne_def ankle_y_def)

lemma rounding_height_value:
  "rd (\<bar>rd (100 - ankle_y)\<bar> * rd (264583 / 1000000)) = 51 / 2"
proof -
  have "rd (100 - ankle_y) = 100 - ankle_y"
    by (subst rd_eqI [of 6]) (simp_all add: rne_def ankle_y_def)
  then show ?thesis
    unfolding ratio_value by (subst rd_eqI [of 4]) (simp_all add: rne_def ankle_y_def)
qed

lemma sqrt_250000: "sqrt 250000 = 500"
  using real_sqrt_abs2 [of "500 :: real"] by simp

lemma scaled_500: "rd (500 * rd (264583 / 1000000)) = 4654593360189719 / 35184372088832"
  unfolding ratio_value by (subst rd_eqI [of 7]) (simp_all add: rne_def)

lemma scaled_900: "rd (900 * rd (264583 / 1000000)) = 4189134024170747 / 17592186044416"
  unfolding ratio_value by (subst rd_eqI [of 7]) (simp_all add: rne_def)

lemma rd_values_A: "rd 100 = 100" "rd 10000 = 10000"
  by (subst rd_eqI [of 6], simp_all add: rne_def) (subst rd_eqI [of 13], simp_all add: rne_def)

lemma sqrt_10000: "sqrt 10000 = 100"
  using real_sqrt_abs2 [of "100 :: real"] by simp

lemma scaled_100: "rd (100 * rd (264583 / 1000000)) = 3723674688151775 / 140737488355328"
  unfolding ratio_value by (subst rd_eqI [of 4]) (simp_all add: rne_def)

lemmas known_values = rd_values rd_values_A rd_0 rd_minus sqrt_250000 sqrt_10000
  scaled_500 scaled_900 scaled_100 rounding_height_value

lemma first_named_rounding_pose:
  "first_named ''left_shoulder'' (keypoints64 rounding_pose)
     (keypoint64_at ''left_shoulder'' (Fin 100) (Fin 200))"
  "first_named ''right_shoulder'' (keypoints64 rounding_pose)
     (keypoint64_at ''right_shoulder'' (Fin 400) (Fin 600))"
  "first_named ''left_ankle'' (keypoints64 rounding_pose)
     (keypoint64_at ''left_ankle'' (Fin 150) (Fin ankle_y))"
  "first_named ''nose'' (keypoints64 rounding_pose)
     (keypoint64_at ''nose'' (Fin 150) (Fin 100))"
  unfolding find_keypoint64_first_named
  by (simp_all add: find_keypoint64_def rounding_pose_def keypoint64_at_def)

lemma finite_value_small:
  assumes "\<bar>r\<bar> \<le> 2 ^ 10"
  shows "finite_value (Fin r) r"
proof -
  have "(2 :: real) ^ 10 \<le> 2 ^ 500" by (rule power_increasing) simp_all
  with assms have "\<bar>r\<bar> \<le> 2 ^ 500" by (rule order_trans)
  then show ?thesis by (simp only: finite_value_def simp_thms)
qed

lemma small_values:
  "\<bar>100 :: real\<bar> \<le> 2 ^ 10" "\<bar>200 :: real\<bar> \<le> 2 ^ 10" "\<bar>400 :: real\<bar> \<le> 2 ^ 10"
  "\<bar>600 :: real\<bar> \<le> 2 ^ 10" "\<bar>ankle_y\<bar> \<le> 2 ^ 10"
  by (simp_all add: ankle_y_def)

lemma rounding_pose_value:
  "calculateMeasurements64 (rounding_pose # rest) = Some \<lparr>height64 = Fin 26, shoulderWidth64 = Fin 132\<rparr>"
proof -
  note b = small_values
  have k: "Suc 10 < 1024" "Suc (Suc 10 + Suc 10) < 1024" by simp_all
  note h = height_formula [OF b(1) b(5) k(1)]
  note w = shoulder_formula [OF b(1) b(3) b(2) b(4) k(2)]
  show ?thesis
    unfolding calculateMeasurements64_found [OF first_named_rounding_pose]
    by (simp add: keypoint64_at_def h w known_values round_def)
qed

text \<open>
  Scenario A gives the height 132 and the shoulder width 26 in double precision too.
\<close>

lemma scenarioA64_value:
  "calculateMeasurements64 (scenarioA64 # rest) = Some \<lparr>height64 = Fin 132, shoulderWidth64 = Fin 26\<rparr>"
proof -
  have n: "first_named ''left_shoulder'' (keypoints64 scenarioA64)
             (keypoint64_at ''left_shoulder'' (Fin 100) (Fin 200))"
    "first_named ''right_shoulder'' (keypoints64 scenarioA64)
       (keypoint64_at ''right_shoulder'' (Fin 200) (Fin 200))"
    "first_named ''left_ankle'' (keypoints64 scenarioA64)
       (keypoint64_at ''left_ankle'' (Fin 150) (Fin 600))"
    "first_named ''nose'' (keypoints64 scenarioA64)
       (keypoint64_at ''nose'' (Fin 150) (Fin 100))"
    unfolding find_keypoint64_first_named
    by (simp_all add: find_keypoint64_def scenarioA64_def keypoint64_at_def)
  note b = small_values
  have k: "Suc 10 < 1024" "Suc (Suc 10 + Suc 10) < 1024" by simp_all
  note h = height_formula [OF b(1) b(4) k(1)]
  note w = shoulder_formula [OF b(1) b(2) b(2) b(2) k(2)]
  show ?thesis
    unfolding calculateMeasurements64_found [OF n]
    by (simp add: keypoint64_at_def h w known_values round_def)
qed



subsection \<open>The measurement formula\<close>

text \<open>
  Claim C1, as stated: the height is the rounded exact product of the vertical distance
  and 0.264583. The source computes in double precision. With the nose at height 100 and
  the left ankle at the double nearest to 196.37807417710133, the double product is
  25.5 and the height returned is 26, while the exact product lies below 25.5 and rounds
  to 25.
\<close>

theorem exact_formula_counterexample:
  "fl (19637807417710133 / 100000000000000) = Fin ankle_y \<and>
   calculateMeasurements64 [rounding_pose] = Some \<lparr>height64 = Fin 26, shoulderWidth64 = Fin 132\<rparr> \<and>
   round (\<bar>100 - ankle_y\<bar> * 0.264583) = 25"
proof -
  have "ankle_y < 2 ^ 1024"
    using small_values(5) by (intro below_overflow [of _ 10]) simp_all
  then have a: "fl (19637807417710133 / 100000000000000) = Fin ankle_y"
    using fl_Fin [of "19637807417710133 / 100000000000000"] by (simp add: ankle_y_literal)
  have "round (\<bar>100 - ankle_y\<bar> * 0.264583) = 25"
    by (simp add: round_def ankle_y_def)
  with a rounding_pose_value [of "[]"] show ?thesis by simp
qed

text \<open>
  Claim C1, amended. When the first pose has the four required landmarks, each the
  first keypoint of its name, the result is a measurement: its shoulder width is
  \<^verbatim>\<open>Math.round\<close> of the product of 0.264583 and the square root of the sum of the
  squares of the two coordinate differences of the shoulders, its height is
  \<^verbatim>\<open>Math.round\<close> of the product of 0.264583 and the absolute difference of the vertical
  coordinates of the nose and the left ankle, each operation being that of double
  precision. For finite coordinates of a magnitude of \<open>2 ^ 500\<close> at most, these are the
  exact formulas with every intermediate result, the constant included, rounded to the
  nearest double. The shoulder width uses both coordinates, the height the vertical one
  only.
\<close>

theorem calculateMeasurements64_formula:
  assumes "first_named ''left_shoulder'' (keypoints64 pose) ls"
    and "first_named ''right_shoulder'' (keypoints64 pose) rs"
    and "first_named ''left_ankle'' (keypoints64 pose) la"
    and "first_named ''nose'' (keypoints64 pose) ns"
  shows "calculateMeasurements64 (pose # rest) =
           Some \<lparr>height64 =
                   Math_round64 (Number_multiply (Math_abs64 (Number_subtract (y64 ns) (y64 la)))
                     PIXEL_TO_CM_RATIO64),
                 shoulderWidth64 =
                   Math_round64 (Number_multiply
                     (Math_sqrt64 (Number_add (Math_pow64_2 (Number_subtract (x64 rs) (x64 ls)))
                                              (Math_pow64_2 (Number_subtract (y64 rs) (y64 ls)))))
                     PIXEL_TO_CM_RATIO64)\<rparr> \<and>
         (finite_value (x64 ls) lx \<and> finite_value (y64 ls) ly \<and> finite_value (x64 rs) rx \<and> finite_value (y64 rs) ry \<and>
          finite_value (y64 la) ay \<and> finite_value (y64 ns) ny \<longrightarrow>
          calculateMeasurements64 (pose # rest) =
            Some \<lparr>height64 =
                    Fin (of_int (round (rd (\<bar>rd (ny - ay)\<bar> * rd (264583 / 1000000))))),
                  shoulderWidth64 =
                    Fin (of_int (round
                      (rd (rd (sqrt (rd (rd ((rd (rx - lx))\<^sup>2) + rd ((rd (ry - ly))\<^sup>2)))) *
                           rd (264583 / 1000000)))))\<rparr>)"
proof (intro conjI impI)
  show general: "calculateMeasurements64 (pose # rest) =
           Some \<lparr>height64 =
                   Math_round64 (Number_multiply (Math_abs64 (Number_subtract (y64 ns) (y64 la)))
                     PIXEL_TO_CM_RATIO64),
                 shoulderWidth64 =
                   Math_round64 (Number_multiply
                     (Math_sqrt64 (Number_add (Math_pow64_2 (Number_subtract (x64 rs) (x64 ls)))
                                              (Math_pow64_2 (Number_subtract (y64 rs) (y64 ls)))))
                     PIXEL_TO_CM_RATIO64)\<rparr>"
    using assms by (rule calculateMeasurements64_found)
  assume "finite_value (x64 ls) lx \<and> finite_value (y64 ls) ly \<and> finite_value (x64 rs) rx \<and> finite_value (y64 rs) ry \<and>
          finite_value (y64 la) ay \<and> finite_value (y64 ns) ny"
  then have c: "x64 ls = Fin lx" "y64 ls = Fin ly" "x64 rs = Fin rx" "y64 rs = Fin ry"
      "y64 la = Fin ay" "y64 ns = Fin ny"
    and b: "\<bar>lx\<bar> \<le> 2 ^ 500" "\<bar>ly\<bar> \<le> 2 ^ 500" "\<bar>rx\<bar> \<le> 2 ^ 500" "\<bar>ry\<bar> \<le> 2 ^ 500"
      "\<bar>ay\<bar> \<le> 2 ^ 500" "\<bar>ny\<bar> \<le> 2 ^ 500"
    unfolding finite_value_def by blast+
  have h: "Math_round64 (Number_multiply (Math_abs64 (Number_subtract (Fin ny) (Fin ay)))
             PIXEL_TO_CM_RATIO64) =
           Fin (of_int (round (rd (\<bar>rd (ny - ay)\<bar> * rd (264583 / 1000000)))))"
    using b(6) b(5) by (rule height_formula) simp
  have w: "Math_round64 (Number_multiply
             (Math_sqrt64 (Number_add (Math_pow64_2 (Number_subtract (Fin rx) (Fin lx)))
                                      (Math_pow64_2 (Number_subtract (Fin ry) (Fin ly)))))
             PIXEL_TO_CM_RATIO64) =
           Fin (of_int (round (rd (rd (sqrt (rd (rd (rd (rx - lx) * rd (rx - lx)) +
                                               rd (rd (ry - ly) * rd (ry - ly))))) *
                                     rd (264583 / 1000000)))))"
    using b(1) b(3) b(2) b(4) by (rule shoulder_formula) simp
  show "calculateMeasurements64 (pose # rest) =
            Some \<lparr>height64 =
                    Fin (of_int (round (rd (\<bar>rd (ny - ay)\<bar> * rd (264583 / 1000000))))),
                  shoulderWidth64 =
                    Fin (of_int (round
                      (rd (rd (sqrt (rd (rd ((rd (rx - lx))\<^sup>2) + rd ((rd (ry - ly))\<^sup>2)))) *
                           rd (264583 / 1000000)))))\<rparr>"
    unfolding general c h w power2_eq_square ..
qed

theorem calculateMeasurements64_formula_witness:
  "first_named ''left_shoulder'' (keypoints64 rounding_pose)
     (keypoint64_at ''left_shoulder'' (Fin 100) (Fin 200)) \<and>
   first_named ''right_shoulder'' (keypoints64 rounding_pose)
     (keypoint64_at ''right_shoulder'' (Fin 400) (Fin 600)) \<and>
   first_named ''left_ankle'' (keypoints64 rounding_pose)
     (keypoint64_at ''left_ankle'' (Fin 150) (Fin ankle_y)) \<and>
   first_named ''nose'' (keypoints64 rounding_pose)
     (keypoint64_at ''nose'' (Fin 150) (Fin 100)) \<and>
   finite_value (Fin 100) 100 \<and> finite_value (Fin 200) 200 \<and> finite_value (Fin 400) 400 \<and> finite_value (Fin 600) 600 \<and>
   finite_value (Fin ankle_y) ankle_y \<and>
   calculateMeasurements64 [rounding_pose] = Some \<lparr>height64 = Fin 26, shoulderWidth64 = Fin 132\<rparr>"
proof -
  note n = first_named_rounding_pose
  note p = small_values [THEN finite_value_small]
  from p have q:
    "finite_value (x64 (keypoint64_at ''left_shoulder'' (Fin 100) (Fin 200))) 100 \<and>
     finite_value (y64 (keypoint64_at ''left_shoulder'' (Fin 100) (Fin 200))) 200 \<and>
     finite_value (x64 (keypoint64_at ''right_shoulder'' (Fin 400) (Fin 600))) 400 \<and>
     finite_value (y64 (keypoint64_at ''right_shoulder'' (Fin 400) (Fin 600))) 600 \<and>
     finite_value (y64 (keypoint64_at ''left_ankle'' (Fin 150) (Fin ankle_y))) ankle_y \<and>
     finite_value (y64 (keypoint64_at ''nose'' (Fin 150) (Fin 100))) 100"
    by (simp add: keypoint64_at_def)
  from calculateMeasurements64_formula [OF n, THEN conjunct2, THEN mp, OF q, of "[]"]
  have "calculateMeasurements64 [rounding_pose] =
      Some \<lparr>height64 = Fin 26, shoulderWidth64 = Fin 132\<rparr>"
    by (simp add: known_values round_def)
  with n p show ?thesis by simp
qed

subsection \<open>The sign of the measurement\<close>




end
